theory Spec2Isabelle
  imports Main "HOL-Library.Word"
begin

section \<open>Values that cross the network\<close>

text \<open>
  \<^verbatim>\<open>apiFetch\<close> returns \<^verbatim>\<open>Promise<any>\<close>: whatever \<^verbatim>\<open>response.json()\<close> parsed. The
  component reads properties of that value, tests it for truthiness and hands it to the
  \<^verbatim>\<open>Error\<close> constructor, so the model keeps the value untyped. Numbers are restricted to
  the integers from \<open>- 2^53\<close> to \<open>2^53 - 1\<close>, held as a signed word of 54 bits: each of them
  is a double, which \<^verbatim>\<open>JSON.parse\<close> yields exactly and JavaScript prints in plain decimal.
  An object is the list of its members in the order of the JSON text. What the component
  renders (the JSX of lines 154 to 277) is outside the model.
\<close>

datatype jsval =
    JUndefined
  | JNull
  | JBool bool
  | JNum "54 word"
  | JStr string
  | JArr "jsval list"
  | JObj "(string \<times> jsval) list"

text \<open>What \<^verbatim>\<open>!v\<close>, \<^verbatim>\<open>v && ...\<close> and \<^verbatim>\<open>v || ...\<close> test.\<close>

fun truthy :: "jsval \<Rightarrow> bool" where
  "truthy JUndefined = False"
| "truthy JNull = False"
| "truthy (JBool b) = b"
| "truthy (JNum n) = (n \<noteq> 0)"
| "truthy (JStr s) = (s \<noteq> [])"
| "truthy (JArr xs) = True"
| "truthy (JObj kvs) = True"

definition js_or :: "jsval \<Rightarrow> jsval \<Rightarrow> jsval" where
  "js_or a b = (if truthy a then a else b)"

text \<open>
  What can be thrown: the \<^verbatim>\<open>ApiError\<close> class of \<^verbatim>\<open>api.ts\<close> (message, status, data), the
  \<^verbatim>\<open>TypeError\<close> of a rejected \<^verbatim>\<open>fetch\<close> or of a property read on \<^verbatim>\<open>null\<close>/\<^verbatim>\<open>undefined\<close>,
  and the \<^verbatim>\<open>SyntaxError\<close> of \<^verbatim>\<open>response.json()\<close> on a body that is not JSON.
\<close>

datatype exn = ApiError string nat jsval | TypeError | SyntaxError

text \<open>
  The property read \<^verbatim>\<open>v.k\<close>, for the keys the program reads (\<^verbatim>\<open>message\<close>, \<^verbatim>\<open>data\<close>,
  \<^verbatim>\<open>digitizationId\<close>, \<^verbatim>\<open>status\<close>), none of which is a built-in property of a primitive or
  an array. When a JSON text repeats a key, \<^verbatim>\<open>JSON.parse\<close> keeps the last member.
\<close>

fun get_prop :: "string \<Rightarrow> jsval \<Rightarrow> exn + jsval" where
  "get_prop k JUndefined = Inl TypeError"
| "get_prop k JNull = Inl TypeError"
| "get_prop k (JObj kvs) = (case map_of (rev kvs) k of None \<Rightarrow> Inr JUndefined | Some v \<Rightarrow> Inr v)"
| "get_prop k v = Inr JUndefined"

subsection \<open>Conversion to a string\<close>

fun string_of_nat :: "nat \<Rightarrow> string" where
  "string_of_nat n =
     (if n < 10 then [''0123456789'' ! n]
      else string_of_nat (n div 10) @ [''0123456789'' ! (n mod 10)])"

declare string_of_nat.simps [simp del]

definition string_of_int :: "int \<Rightarrow> string" where
  "string_of_int n = (if n < 0 then CHR ''-'' # string_of_nat (nat (- n)) else string_of_nat (nat n))"

text \<open>The results of a list of conversions, or the first error among them.\<close>

fun collect :: "('e + 'a) list \<Rightarrow> 'e + 'a list" where
  "collect [] = Inr []"
| "collect (Inl e # rs) = Inl e"
| "collect (Inr a # rs) = (case collect rs of Inl e \<Rightarrow> Inl e | Inr as \<Rightarrow> Inr (a # as))"

fun join_comma :: "string list \<Rightarrow> string" where
  "join_comma [] = []"
| "join_comma [x] = x"
| "join_comma (x # y # zs) = x @ '','' @ join_comma (y # zs)"

text \<open>
  The conversion \<^verbatim>\<open>String(v)\<close>, which \<^verbatim>\<open>super(message)\<close> in the constructor of \<^verbatim>\<open>ApiError\<close>
  and the template literal of line 51 apply. An array is joined with commas, its elements
  converted from left to right (\<^verbatim>\<open>null\<close> and \<^verbatim>\<open>undefined\<close> elements print as nothing). An
  object prints as \<^verbatim>\<open>[object Object]\<close> through \<^verbatim>\<open>Object.prototype.toString\<close>, unless it has a
  member \<^verbatim>\<open>toString\<close> of its own: a parsed member is never callable, \<^verbatim>\<open>valueOf\<close> gives back
  the object, and the conversion throws a \<^verbatim>\<open>TypeError\<close>.
\<close>

fun to_string :: "jsval \<Rightarrow> exn + string" where
  "to_string JUndefined = Inr ''undefined''"
| "to_string JNull = Inr ''null''"
| "to_string (JBool b) = Inr (if b then ''true'' else ''false'')"
| "to_string (JNum n) = Inr (string_of_int (sint n))"
| "to_string (JStr s) = Inr s"
| "to_string (JArr xs) =
     (case collect (map (\<lambda>x. if x = JUndefined \<or> x = JNull then Inr [] else to_string x) xs) of
        Inl e \<Rightarrow> Inl e
      | Inr parts \<Rightarrow> Inr (join_comma parts))"
| "to_string (JObj kvs) =
     (if map_of (rev kvs) ''toString'' \<noteq> None then Inl TypeError else Inr ''[object Object]'')"

section \<open>The fetch wrapper (\<^verbatim>\<open>app/lib/api.ts\<close>)\<close>

text \<open>
  How one HTTP exchange ends: \<^verbatim>\<open>fetch\<close> rejects (no response at all), or a response
  arrives with a status code and a body that \<^verbatim>\<open>response.json()\<close> parses (\<open>Some\<close>) or
  rejects (\<open>None\<close>).
\<close>

datatype fetch_outcome = Rejected | Responded nat "jsval option"

text \<open>\<^verbatim>\<open>response.ok\<close>: the status is in the range 200 to 299.\<close>

definition response_ok :: "nat \<Rightarrow> bool" where
  "response_ok st = (200 \<le> st \<and> st \<le> 299)"

definition api_error_default :: string where
  "api_error_default = ''An API error occurred''"

text \<open>
  \<^verbatim>\<open>apiFetch\<close>: the body is parsed first (line 29), then \<^verbatim>\<open>response.ok\<close> is tested
  (line 31); a response that is not ok throws \<^verbatim>\<open>ApiError(data.message || "An API error
  occurred", status, data)\<close>, an ok one returns \<^verbatim>\<open>data.data\<close>. When the read of
  \<^verbatim>\<open>data.message\<close> or the conversion of the message to a string throws, that error is what
  leaves \<^verbatim>\<open>apiFetch\<close>.
\<close>

fun apiFetch :: "fetch_outcome \<Rightarrow> exn + jsval" where
  "apiFetch Rejected = Inl TypeError"
| "apiFetch (Responded st None) = Inl SyntaxError"
| "apiFetch (Responded st (Some data)) =
     (if \<not> response_ok st then
        (case get_prop ''message'' data of
           Inl e \<Rightarrow> Inl e
         | Inr m \<Rightarrow>
             (case to_string (js_or m (JStr api_error_default)) of
                Inl e \<Rightarrow> Inl e
              | Inr msg \<Rightarrow> Inl (ApiError msg st data)))
      else get_prop ''data'' data)"

section \<open>The component state (\<^verbatim>\<open>app/routes/home.tsx\<close>)\<close>

text \<open>
  The five \<^verbatim>\<open>useState\<close> cells of \<^verbatim>\<open>Home\<close>. The spec calls them \<^verbatim>\<open>activeJobId\<close>,
  \<^verbatim>\<open>lastSnapshot\<close>, \<^verbatim>\<open>isBusy\<close>, \<^verbatim>\<open>error\<close> and \<^verbatim>\<open>progress\<close>. \<^verbatim>\<open>jobId\<close> and \<^verbatim>\<open>result\<close> hold
  whatever the server sent (\<^verbatim>\<open>null\<close> at the start).
\<close>

record session =
  jobId :: jsval
  result :: jsval
  isLoading :: bool
  error :: "string option"
  progress :: int

definition initial_session :: session where
  "initial_session = \<lparr>jobId = JNull, result = JNull, isLoading = False, error = None, progress = 0\<rparr>"

definition resetState :: "session \<Rightarrow> session" where
  "resetState s = s\<lparr>jobId := JNull, result := JNull, isLoading := False, error := None, progress := 0\<rparr>"

definition poll_fallback :: string where
  "poll_fallback = ''An unknown error occurred while fetching results.''"

definition url_fallback :: string where
  "url_fallback = ''An unknown error occurred during URL submission.''"

definition file_fallback :: string where
  "file_fallback = ''An unknown error occurred during file submission.''"

definition upload_error_default :: string where
  "upload_error_default = ''File upload failed''"

definition no_file_message :: string where
  "no_file_message = ''Please select a file to upload.''"

text \<open>\<^verbatim>\<open>err instanceof ApiError ? err.message : fallback\<close>, as the three catch blocks do.\<close>

fun displayed :: "string \<Rightarrow> exn \<Rightarrow> string" where
  "displayed fallback (ApiError m st d) = m"
| "displayed fallback e = fallback"

subsection \<open>The polling callback\<close>

text \<open>The catch block of the interval callback (lines 61 to 69).\<close>

definition poll_catch :: "exn \<Rightarrow> session \<Rightarrow> session" where
  "poll_catch e s = s\<lparr>error := Some (displayed poll_fallback e), isLoading := False, jobId := JNull\<rparr>"

text \<open>
  The body of the interval callback once its request has ended with outcome \<open>out\<close>
  (lines 49 to 69). \<^verbatim>\<open>setResult(data)\<close> runs before \<^verbatim>\<open>data.status\<close> is read, so a
  response without a \<^verbatim>\<open>data\<close> member stores \<^verbatim>\<open>undefined\<close> and then lands in the catch
  block. The callback reads no state: it only calls the setters.
\<close>

definition poll_callback :: "fetch_outcome \<Rightarrow> session \<Rightarrow> session" where
  "poll_callback out s =
     (case apiFetch out of
        Inl e \<Rightarrow> poll_catch e s
      | Inr data \<Rightarrow>
          (let s1 = s\<lparr>result := data\<rparr> in
           case get_prop ''status'' data of
             Inl e \<Rightarrow> poll_catch e s1
           | Inr st \<Rightarrow>
               (let s2 = (if st = JStr ''processing'' then s1\<lparr>progress := 50\<rparr> else s1) in
                if st = JStr ''completed'' \<or> st = JStr ''failed''
                then s2\<lparr>progress := 100, jobId := JNull, isLoading := False\<rparr>
                else s2)))"

text \<open>
  The polling effect (lines 40 to 73), run with the state of the render: it installs no
  interval when the guard of lines 41 to 46 holds, and otherwise an interval whose callback
  has captured \<^verbatim>\<open>jobId\<close>. The result is the job id the installed interval polls for.
\<close>

definition polling_effect :: "session \<Rightarrow> jsval option" where
  "polling_effect s =
     (if \<not> truthy (jobId s) \<or>
         (truthy (result s) \<and>
          (get_prop ''status'' (result s) = Inr (JStr ''completed'') \<or>
           get_prop ''status'' (result s) = Inr (JStr ''failed'')))
      then None else Some (jobId s))"

subsection \<open>The two submission handlers\<close>

text \<open>\<^verbatim>\<open>resetState(); setIsLoading(true); setProgress(5);\<close> (lines 85 to 87, 117 to 119).\<close>

definition submit_begin :: "session \<Rightarrow> session" where
  "submit_begin s = (resetState s)\<lparr>isLoading := True, progress := 5\<rparr>"

text \<open>\<^verbatim>\<open>{ status: "pending" } as DigitizationResult\<close> (lines 98 and 143).\<close>

definition pending_snapshot :: jsval where
  "pending_snapshot = JObj [(''status'', JStr ''pending'')]"

text \<open>The catch blocks of the two handlers (lines 99 to 106, 144 to 151).\<close>

definition submit_catch :: "string \<Rightarrow> exn \<Rightarrow> session \<Rightarrow> session" where
  "submit_catch fallback e s = s\<lparr>error := Some (displayed fallback e), isLoading := False\<rparr>"

text \<open>
  \<^verbatim>\<open>handleSubmitUrl\<close> after its \<^verbatim>\<open>await\<close> (lines 97 to 106). The argument
  \<^verbatim>\<open>data.digitizationId\<close> is evaluated before any setter is called.
\<close>

definition url_continuation :: "fetch_outcome \<Rightarrow> session \<Rightarrow> session" where
  "url_continuation out s =
     (case apiFetch out of
        Inl e \<Rightarrow> submit_catch url_fallback e s
      | Inr data \<Rightarrow>
          (case get_prop ''digitizationId'' data of
             Inl e \<Rightarrow> submit_catch url_fallback e s
           | Inr jid \<Rightarrow> s\<lparr>jobId := jid, result := pending_snapshot\<rparr>))"

text \<open>
  \<^verbatim>\<open>handleSubmitFile\<close> does its own \<^verbatim>\<open>fetch\<close> (lines 127 to 142): the same order of parse
  and ok test as \<^verbatim>\<open>apiFetch\<close>, its own default message, and \<^verbatim>\<open>data.data.digitizationId\<close>
  as the value.
\<close>

fun upload_fetch :: "fetch_outcome \<Rightarrow> exn + jsval" where
  "upload_fetch Rejected = Inl TypeError"
| "upload_fetch (Responded st None) = Inl SyntaxError"
| "upload_fetch (Responded st (Some data)) =
     (if \<not> response_ok st then
        (case get_prop ''message'' data of
           Inl e \<Rightarrow> Inl e
         | Inr m \<Rightarrow>
             (case to_string (js_or m (JStr upload_error_default)) of
                Inl e \<Rightarrow> Inl e
              | Inr msg \<Rightarrow> Inl (ApiError msg st data)))
      else
        (case get_prop ''data'' data of
           Inl e \<Rightarrow> Inl e
         | Inr d \<Rightarrow> get_prop ''digitizationId'' d))"

definition upload_continuation :: "fetch_outcome \<Rightarrow> session \<Rightarrow> session" where
  "upload_continuation out s =
     (case upload_fetch out of
        Inl e \<Rightarrow> submit_catch file_fallback e s
      | Inr jid \<Rightarrow> s\<lparr>jobId := jid, result := pending_snapshot\<rparr>)"

section \<open>The component with its timer and its requests in flight\<close>

text \<open>
  Besides the state cells, the running component has the interval installed by the last run
  of the polling effect (if any, with the job id its callback captured) and the requests
  that were sent and have not ended yet: status requests (each with the job id of its URL),
  URL submissions (image URL and target language) and uploads (target language).
\<close>

record world =
  ui :: session
  interval :: "jsval option"
  polls :: "jsval list"
  url_posts :: "(string \<times> string) list"
  uploads :: "string list"

definition initial_world :: world where
  "initial_world = \<lparr>ui = initial_session, interval = None, polls = [], url_posts = [], uploads = []\<rparr>"

text \<open>
  A render with new state. The effect has the dependencies \<^verbatim>\<open>[jobId, result]\<close>: when one
  of them changed, its cleanup clears the old interval (line 72) and the effect runs again.
  Equal values count as unchanged here; React compares objects by identity, so a fresh
  object equal to the old one makes it run the effect again, which then installs the same
  interval anew. The model has no clock, so the two cases give the same state.
  One handler segment together with the render it causes is one atomic step of the model.
\<close>

definition commit :: "session \<Rightarrow> world \<Rightarrow> world" where
  "commit s' w =
     w\<lparr>ui := s',
       interval := (if jobId s' = jobId (ui w) \<and> result s' = result (ui w)
                    then interval w else polling_effect s')\<rparr>"

text \<open>\<^verbatim>\<open>handleSubmitUrl\<close> up to its \<^verbatim>\<open>await\<close>: it checks nothing and sends the request.\<close>

definition handleSubmitUrl :: "string \<Rightarrow> string \<Rightarrow> world \<Rightarrow> world" where
  "handleSubmitUrl url lang w =
     (commit (submit_begin (ui w)) w)\<lparr>url_posts := url_posts w @ [(url, lang)]\<rparr>"

text \<open>\<^verbatim>\<open>handleSubmitFile\<close> up to its \<^verbatim>\<open>await\<close>, with the file check of lines 111 to 115.\<close>

definition handleSubmitFile :: "bool \<Rightarrow> string \<Rightarrow> world \<Rightarrow> world" where
  "handleSubmitFile has_file lang w =
     (if \<not> has_file then commit ((ui w)\<lparr>error := Some no_file_message\<rparr>) w
      else (commit (submit_begin (ui w)) w)\<lparr>uploads := uploads w @ [lang]\<rparr>)"

text \<open>
  Modelled from the spec: the \<^verbatim>\<open>Input\<close> and \<^verbatim>\<open>Button\<close> components (\<^verbatim>\<open>~/components/ui\<close>) are
  not among the sources; they are taken to hand \<^verbatim>\<open>required\<close>, \<^verbatim>\<open>type\<close> and \<^verbatim>\<open>disabled\<close> to
  the native elements. The URL input is \<^verbatim>\<open>required\<close> and of \<^verbatim>\<open>type="url"\<close> (lines 177 to
  184), so the browser fires \<^verbatim>\<open>onSubmit\<close> only for a value that is not empty and that it
  accepts as a URL (the spec: a non-empty syntactically valid URL). \<open>accepted\<close> is the
  browser's verdict on the syntax.
\<close>

definition url_input_valid :: "string \<Rightarrow> bool \<Rightarrow> bool" where
  "url_input_valid url accepted = (url \<noteq> [] \<and> accepted)"

datatype event =
    SubmitUrl string bool string
  | SubmitFile bool string
  | Tick
  | PollSettles nat fetch_outcome
  | UrlSettles nat fetch_outcome
  | UploadSettles nat fetch_outcome

definition remove_nth :: "nat \<Rightarrow> 'a list \<Rightarrow> 'a list" where
  "remove_nth i xs = take i xs @ drop (Suc i) xs"

text \<open>
  One event of the event loop; \<open>None\<close> when the event cannot happen in this state.
  \<^item> \<open>SubmitUrl url accepted lang\<close>, \<open>SubmitFile has_file lang\<close>: the user submits a form.
    Inputs and buttons are \<^verbatim>\<open>disabled={isLoading}\<close>; both first inputs are \<^verbatim>\<open>required\<close>,
    so a submission the browser's validation stops runs no handler.
  \<^item> \<open>Tick\<close>: the installed interval fires. Its callback builds the URL with the
    captured \<^verbatim>\<open>jobId\<close> (line 51, inside the \<^verbatim>\<open>try\<close>) and sends a status request; when the
    job id has no string form, the catch block runs at once and nothing is sent.
    \<^verbatim>\<open>setInterval\<close> does not wait for the promise of the previous callback.
  \<^item> \<open>PollSettles i out\<close>, \<open>UrlSettles i out\<close>, \<open>UploadSettles i out\<close>: the \<open>i\<close>-th request
    in flight of that kind ends with \<open>out\<close> and the code after its \<^verbatim>\<open>await\<close> runs.
\<close>

fun step :: "event \<Rightarrow> world \<Rightarrow> world option" where
  "step (SubmitUrl url accepted lang) w =
     (if isLoading (ui w) then None
      else if \<not> url_input_valid url accepted then Some w
      else Some (handleSubmitUrl url lang w))"
| "step (SubmitFile has_file lang) w =
     (if isLoading (ui w) then None
      else if \<not> has_file then Some w
      else Some (handleSubmitFile has_file lang w))"
| "step Tick w =
     (case interval w of
        None \<Rightarrow> None
      | Some j \<Rightarrow>
          (case to_string j of
             Inl e \<Rightarrow> Some (commit (poll_catch e (ui w)) w)
           | Inr url \<Rightarrow> Some (w\<lparr>polls := polls w @ [j]\<rparr>)))"
| "step (PollSettles i out) w =
     (if i < length (polls w)
      then Some (commit (poll_callback out (ui w)) (w\<lparr>polls := remove_nth i (polls w)\<rparr>))
      else None)"
| "step (UrlSettles i out) w =
     (if i < length (url_posts w)
      then Some (commit (url_continuation out (ui w)) (w\<lparr>url_posts := remove_nth i (url_posts w)\<rparr>))
      else None)"
| "step (UploadSettles i out) w =
     (if i < length (uploads w)
      then Some (commit (upload_continuation out (ui w)) (w\<lparr>uploads := remove_nth i (uploads w)\<rparr>))
      else None)"

fun run :: "event list \<Rightarrow> world \<Rightarrow> world option" where
  "run [] w = Some w"
| "run (e # es) w = (case step e w of None \<Rightarrow> None | Some w' \<Rightarrow> run es w')"

text \<open>The events of polling: a tick, or the end of a status request.\<close>

fun is_poll_event :: "event \<Rightarrow> bool" where
  "is_poll_event Tick = True"
| "is_poll_event (PollSettles i out) = True"
| "is_poll_event e = False"

section \<open>Notions used in the statements\<close>

text \<open>
  The status a status request delivered to the callback: the \<^verbatim>\<open>status\<close> member of the value
  \<^verbatim>\<open>apiFetch\<close> returned, or \<open>None\<close> when \<^verbatim>\<open>apiFetch\<close> threw or the read of \<^verbatim>\<open>data.status\<close>
  threw.
\<close>

definition received_status :: "fetch_outcome \<Rightarrow> jsval option" where
  "received_status out =
     (case apiFetch out of
        Inl e \<Rightarrow> None
      | Inr data \<Rightarrow> (case get_prop ''status'' data of Inl e \<Rightarrow> None | Inr st \<Rightarrow> Some st))"

definition terminal :: "fetch_outcome \<Rightarrow> bool" where
  "terminal out =
     (received_status out = Some (JStr ''completed'') \<or> received_status out = Some (JStr ''failed''))"

text \<open>The installed interval is the one the effect would install for the current state.\<close>

definition effect_current :: "world \<Rightarrow> bool" where
  "effect_current w = (interval w = polling_effect (ui w))"

text \<open>
  The states a session goes through when the callback runs once for each of a list of
  request outcomes, in order, the first state included.
\<close>

fun poll_states :: "session \<Rightarrow> fetch_outcome list \<Rightarrow> session list" where
  "poll_states s [] = [s]"
| "poll_states s (out # outs) = s # poll_states (poll_callback out s) outs"

subsection \<open>Example exchanges and executions\<close>

text \<open>
  A 200 response with the envelope \<^verbatim>\<open>{data: d}\<close>; the answer to a submission that created job
  \<open>j\<close>; the answer to a status request for a job in status \<open>st\<close>.
\<close>

definition ok_body :: "jsval \<Rightarrow> fetch_outcome" where
  "ok_body d = Responded 200 (Some (JObj [(''data'', d)]))"

definition job_created :: "string \<Rightarrow> fetch_outcome" where
  "job_created j = ok_body (JObj [(''digitizationId'', JStr j)])"

definition status_reply :: "string \<Rightarrow> fetch_outcome" where
  "status_reply st = ok_body (JObj [(''status'', JStr st)])"

text \<open>
  The user submits a URL and the server creates job A; then the interval fires twice before
  any answer has come back; then the first answer says completed, the user submits again and
  the server creates job B, while the second status request for A is still in flight.
\<close>

definition tracking_A :: "event list" where
  "tracking_A = [SubmitUrl ''https://x/y.png'' True ''es'', UrlSettles 0 (job_created ''A'')]"

definition two_in_flight :: "event list" where
  "two_in_flight = tracking_A @ [Tick, Tick]"

definition superseded :: "event list" where
  "superseded = two_in_flight @
     [PollSettles 0 (status_reply ''completed''),
      SubmitUrl ''https://x/z.png'' True ''es'',
      UrlSettles 0 (job_created ''B'')]"

text \<open>The component just after job \<open>j\<close> was created, with status requests \<open>ps\<close> in flight.\<close>

definition world_tracking :: "string \<Rightarrow> jsval list \<Rightarrow> world" where
  "world_tracking j ps =
     \<lparr>ui = \<lparr>jobId = JStr j, result = pending_snapshot, isLoading = True, error = None,
             progress = 5\<rparr>,
      interval = Some (JStr j), polls = ps, url_posts = [], uploads = []\<rparr>"

text \<open>Three answers to status requests, in the order a job normally goes through.\<close>

definition three_answers :: "fetch_outcome list" where
  "three_answers = [status_reply ''pending'', status_reply ''processing'', status_reply ''completed'']"


text \<open>
  After the first answer for job A said completed, the user submits again; the second answer
  for A arrives while that submission is awaited, then the server creates job B and the
  interval of B fires once.
\<close>

definition late_answer :: "event list" where
  "late_answer = two_in_flight @
     [PollSettles 0 (status_reply ''completed''),
      SubmitUrl ''https://x/z.png'' True ''es'',
      PollSettles 0 (status_reply ''completed''),
      UrlSettles 0 (job_created ''B''),
      Tick]"

text \<open>
  A job id without a string form: an object with a member \<^verbatim>\<open>toString\<close>. The server answers
  a submission with it.
\<close>

definition odd_job :: jsval where
  "odd_job = JObj [(''toString'', JStr ''x'')]"

definition tracking_odd :: "event list" where
  "tracking_odd =
     [SubmitUrl ''https://x/y.png'' True ''es'',
      UrlSettles 0 (ok_body (JObj [(''digitizationId'', odd_job)]))]"

section \<open>Basic facts\<close>

lemmas model_defs =
  initial_world_def initial_session_def handleSubmitUrl_def handleSubmitFile_def commit_def
  submit_begin_def resetState_def url_continuation_def upload_continuation_def submit_catch_def
  polling_effect_def poll_callback_def poll_catch_def pending_snapshot_def remove_nth_def
  url_input_valid_def response_ok_def js_or_def Let_def
  api_error_default_def upload_error_default_def poll_fallback_def url_fallback_def
  file_fallback_def no_file_message_def

lemmas example_defs =
  ok_body_def job_created_def status_reply_def tracking_A_def two_in_flight_def superseded_def
  late_answer_def odd_job_def tracking_odd_def

lemma run_tracking_A: "run tracking_A initial_world = Some (world_tracking ''A'' [])"
  by (simp add: model_defs example_defs world_tracking_def)

lemma run_two_in_flight: "run two_in_flight initial_world = Some (world_tracking ''A'' [JStr ''A'', JStr ''A''])"
  by (simp add: model_defs example_defs world_tracking_def)

lemma run_superseded: "run superseded initial_world = Some (world_tracking ''B'' [JStr ''A''])"
  by (simp add: model_defs example_defs world_tracking_def)

lemma poll_callback_progress:
  "progress (poll_callback out s) =
     (if terminal out then 100
      else if received_status out = Some (JStr ''processing'') then 50
      else progress s)"
  by (auto simp: poll_callback_def poll_catch_def terminal_def received_status_def Let_def
      split: sum.splits)

lemma poll_callback_jobId:
  "jobId (poll_callback out s) =
     (if received_status out = None \<or> terminal out then JNull else jobId s)"
  by (auto simp: poll_callback_def poll_catch_def terminal_def received_status_def Let_def
      split: sum.splits)

lemma polling_effect_cong:
  "jobId s' = jobId s \<Longrightarrow> result s' = result s \<Longrightarrow> polling_effect s' = polling_effect s"
  by (simp add: polling_effect_def)

lemma commit_effect_current:
  "effect_current w \<Longrightarrow> effect_current (commit s' w)"
  by (auto simp: effect_current_def commit_def dest: polling_effect_cong)

lemma ui_commit [simp]: "ui (commit s' w) = s'"
  by (simp add: commit_def)

lemma step_effect_current:
  "effect_current w \<Longrightarrow> step e w = Some w' \<Longrightarrow> effect_current w'"
proof (cases e)
  case (SubmitUrl url accepted lang)
  assume "effect_current w" "step e w = Some w'"
  with SubmitUrl show ?thesis
    using commit_effect_current [of w "submit_begin (ui w)"]
    by (auto simp: handleSubmitUrl_def effect_current_def split: if_splits)
next
  case (SubmitFile has_file lang)
  assume "effect_current w" "step e w = Some w'"
  with SubmitFile show ?thesis
    using commit_effect_current [of w "submit_begin (ui w)"]
    by (auto simp: handleSubmitFile_def effect_current_def split: if_splits)
next
  case Tick
  assume "effect_current w" "step e w = Some w'"
  with Tick show ?thesis
    using commit_effect_current [of w]
    by (auto simp: effect_current_def split: option.splits sum.splits)
next
  case (PollSettles i out)
  assume "effect_current w" "step e w = Some w'"
  with PollSettles show ?thesis
    using commit_effect_current [of "w\<lparr>polls := remove_nth i (polls w)\<rparr>" "poll_callback out (ui w)"]
    by (auto simp: effect_current_def split: if_splits)
next
  case (UrlSettles i out)
  assume "effect_current w" "step e w = Some w'"
  with UrlSettles show ?thesis
    using commit_effect_current [of "w\<lparr>url_posts := remove_nth i (url_posts w)\<rparr>" "url_continuation out (ui w)"]
    by (auto simp: effect_current_def split: if_splits)
next
  case (UploadSettles i out)
  assume "effect_current w" "step e w = Some w'"
  with UploadSettles show ?thesis
    using commit_effect_current [of "w\<lparr>uploads := remove_nth i (uploads w)\<rparr>" "upload_continuation out (ui w)"]
    by (auto simp: effect_current_def split: if_splits)
qed

lemma run_effect_current:
  "effect_current w \<Longrightarrow> run evs w = Some w' \<Longrightarrow> effect_current w'"
proof (induction evs arbitrary: w)
  case Nil
  then show ?case by simp
next
  case (Cons e evs)
  then show ?case
    by (auto split: option.splits dest: step_effect_current)
qed

lemma initial_effect_current: "effect_current initial_world"
  by (simp add: effect_current_def initial_world_def initial_session_def polling_effect_def)

lemma reachable_effect_current:
  "run evs initial_world = Some w \<Longrightarrow> interval w = polling_effect (ui w)"
  using run_effect_current [OF initial_effect_current] by (simp add: effect_current_def)

lemma polling_effect_falsy: "\<not> truthy (jobId s) \<Longrightarrow> polling_effect s = None"
  by (simp add: polling_effect_def)

lemma polling_effect_Some: "polling_effect s = Some j \<Longrightarrow> jobId s = j \<and> truthy j"
  by (auto simp: polling_effect_def split: if_splits)

lemma stopped_step:
  assumes "effect_current w" "\<not> truthy (jobId (ui w))" "is_poll_event e" "step e w = Some w'"
  shows "e \<noteq> Tick \<and> effect_current w' \<and> \<not> truthy (jobId (ui w')) \<and> set (polls w') \<subseteq> set (polls w)"
proof -
  have none: "interval w = None"
    using assms(1,2) by (simp add: effect_current_def polling_effect_falsy)
  show ?thesis
  proof (cases e)
    case Tick
    with none assms(4) show ?thesis by simp
  next
    case (PollSettles i out)
    with assms(4) have w': "w' = commit (poll_callback out (ui w)) (w\<lparr>polls := remove_nth i (polls w)\<rparr>)"
      by (auto split: if_splits)
    have "\<not> truthy (jobId (ui w'))"
      using assms(2) by (simp add: w' poll_callback_jobId)
    moreover have "set (polls w') \<subseteq> set (polls w)"
      by (auto simp: w' commit_def remove_nth_def dest: in_set_takeD in_set_dropD)
    moreover have "effect_current w'"
      using step_effect_current [OF assms(1,4)] .
    ultimately show ?thesis using PollSettles by simp
  qed (use assms(3) in simp_all)
qed

lemma stopped_run:
  assumes "effect_current w" "\<not> truthy (jobId (ui w))" "\<forall>e\<in>set evs. is_poll_event e" "run evs w = Some w'"
  shows "Tick \<notin> set evs \<and> interval w' = None \<and> set (polls w') \<subseteq> set (polls w)"
  using assms
proof (induction evs arbitrary: w)
  case Nil
  then show ?case by (simp add: effect_current_def polling_effect_falsy)
next
  case (Cons e evs)
  from Cons.prems(4) obtain w1 where s1: "step e w = Some w1" and r1: "run evs w1 = Some w'"
    by (auto split: option.splits)
  from Cons.prems(3) have pe: "is_poll_event e" and rest: "\<forall>e\<in>set evs. is_poll_event e"
    by simp_all
  note st = stopped_step [OF Cons.prems(1,2) pe s1]
  from Cons.IH [of w1] st rest r1
  have "Tick \<notin> set evs \<and> interval w' = None \<and> set (polls w') \<subseteq> set (polls w1)" by blast
  with st show ?case by auto
qed

lemma poll_callback_result:
  "apiFetch out = Inr data \<Longrightarrow> result (poll_callback out s) = data"
  by (auto simp: poll_callback_def poll_catch_def Let_def split: sum.splits)

lemma run_ticks:
  "interval w = Some j \<Longrightarrow> to_string j = Inr url \<Longrightarrow>
   run (replicate n Tick) w = Some (w\<lparr>polls := polls w @ replicate n j\<rparr>)"
proof (induction n arbitrary: w)
  case 0
  then show ?case by simp
next
  case (Suc n)
  have "interval (w\<lparr>polls := polls w @ [j]\<rparr>) = Some j" using Suc.prems by simp
  from Suc.IH [OF this Suc.prems(2)] Suc.prems show ?case
    by (simp add: replicate_app_Cons_same)
qed

lemma tick_without_url:
  assumes "effect_current w" and "interval w = Some j" and "to_string j = Inl e"
  shows "step Tick w = Some (commit (poll_catch e (ui w)) w) \<and>
         polls (commit (poll_catch e (ui w)) w) = polls w \<and>
         interval (commit (poll_catch e (ui w)) w) = None"
proof -
  have "effect_current (commit (poll_catch e (ui w)) w)"
    using assms(1) by (rule commit_effect_current)
  then have "interval (commit (poll_catch e (ui w)) w) = None"
    by (simp add: effect_current_def polling_effect_falsy poll_catch_def)
  then show ?thesis using assms(2,3) by (simp add: commit_def)
qed

lemma string_of_nat_nonempty: "string_of_nat n \<noteq> []"
  by (subst string_of_nat.simps) simp

lemma to_string_nonempty:
  "truthy v \<Longrightarrow> (\<forall>xs. v \<noteq> JArr xs) \<Longrightarrow> to_string v = Inr msg \<Longrightarrow> msg \<noteq> []"
  by (cases v) (auto simp: string_of_int_def string_of_nat_nonempty split: if_splits)

lemma collect_throws:
  "collect rs = Inl e \<Longrightarrow> \<exists>r\<in>set rs. r = Inl e"
  by (induction rs rule: collect.induct) (auto split: sum.splits)

lemma to_string_throws: "to_string v = Inl e \<Longrightarrow> e = TypeError"
proof (induction v rule: to_string.induct)
  case (6 xs)
  from "6.prems" obtain r where
    "r \<in> set (map (\<lambda>x. if x = JUndefined \<or> x = JNull then Inr [] else to_string x) xs)" "r = Inl e"
    by (auto split: sum.splits dest: collect_throws)
  then obtain x where "x \<in> set xs" "x \<noteq> JUndefined" "x \<noteq> JNull" "to_string x = Inl e"
    by (auto split: if_splits)
  with "6.IH" show ?case by blast
qed (auto split: if_splits)

lemma displayed_apiFetch_nonempty:
  assumes "apiFetch out = Inl e"
    and "\<forall>st body xs. out = Responded st (Some body) \<and> \<not> response_ok st \<longrightarrow> get_prop ''message'' body \<noteq> Inr (JArr xs)"
  shows "displayed poll_fallback e \<noteq> []"
proof (cases out)
  case Rejected
  with assms(1) show ?thesis by (auto simp: poll_fallback_def)
next
  case (Responded st b)
  show ?thesis
  proof (cases b)
    case None
    with Responded assms(1) show ?thesis by (auto simp: poll_fallback_def)
  next
    case (Some body)
    show ?thesis
    proof (cases "response_ok st")
      case True
      with Some Responded assms(1) have "e = TypeError"
        by (cases body) (auto split: option.splits)
      then show ?thesis by (simp add: poll_fallback_def)
    next
      case False
      show ?thesis
      proof (cases "get_prop ''message'' body")
        case (Inl e')
        with False Some Responded assms(1) have "e = TypeError"
          by (cases body) (auto split: option.splits)
        then show ?thesis by (simp add: poll_fallback_def)
      next
        case (Inr m)
        from assms(2) Responded Some False Inr have noarr: "\<forall>xs. m \<noteq> JArr xs" by auto
        show ?thesis
        proof (cases "to_string (js_or m (JStr api_error_default))")
          case (Inl e')
          with Inr False Some Responded assms(1) have "e = e'" by simp
          moreover have "e' = TypeError" using Inl by (rule to_string_throws)
          ultimately show ?thesis by (simp add: poll_fallback_def)
        next
          case shown: (Inr msg)
          with Inr False Some Responded assms(1) have e: "e = ApiError msg st body" by simp
          have "msg \<noteq> []"
          proof (cases "truthy m")
            case True
            with shown noarr show ?thesis
              using to_string_nonempty [of m msg] by (simp add: js_or_def)
          next
            case False
            with shown show ?thesis by (auto simp: js_or_def api_error_default_def)
          qed
          with e show ?thesis by simp
        qed
      qed
    qed
  qed
qed

lemma poll_states_head: "poll_states s outs ! 0 = s"
  by (cases outs) simp_all

lemma poll_states_bounded:
  assumes "truthy j" and "0 \<le> progress s \<and> progress s \<le> 50"
    and "\<forall>k<length outs. jobId (poll_states s outs ! k) = j"
  shows "(\<forall>t\<in>set (poll_states s outs). progress s \<le> progress t \<and> progress t \<le> 100) \<and>
         sorted (map progress (poll_states s outs)) \<and>
         (\<forall>k<length outs. progress (poll_states s outs ! Suc k) = 100 \<longrightarrow> terminal (outs ! k))"
  using assms(2,3)
proof (induction outs arbitrary: s)
  case Nil
  then show ?case by auto
next
  case (Cons out outs)
  define s' where "s' = poll_callback out s"
  have p': "progress s' = (if terminal out then 100
      else if received_status out = Some (JStr ''processing'') then 50 else progress s)"
    by (simp add: s'_def poll_callback_progress)
  have up: "progress s \<le> progress s'" "progress s' \<le> 100"
    using Cons.prems(1) by (auto simp: p')
  have fin: "progress s' = 100 \<longrightarrow> terminal out"
    using Cons.prems(1) by (auto simp: p')
  show ?case
  proof (cases outs)
    case Nil
    with up fin Cons.prems(1) show ?thesis by (auto simp: s'_def)
  next
    case (Cons out2 rest)
    have "1 < length (out # outs)" using Cons by simp
    with Cons.prems(2) have "jobId (poll_states s (out # outs) ! 1) = j" by blast
    then have "jobId s' = j" by (simp add: s'_def poll_states_head)
    with assms(1) have "\<not> terminal out"
      by (auto simp: s'_def poll_callback_jobId split: if_splits)
    with Cons.prems(1) have inv': "0 \<le> progress s' \<and> progress s' \<le> 50"
      by (auto simp: p')
    have act': "\<forall>k<length outs. jobId (poll_states s' outs ! k) = j"
    proof (intro allI impI)
      fix k assume "k < length outs"
      with Cons.prems(2) have "jobId (poll_states s (out # outs) ! Suc k) = j" by auto
      then show "jobId (poll_states s' outs ! k) = j" by (simp add: s'_def)
    qed
    note IH = Cons.IH [OF inv' act']
    have all: "\<forall>t\<in>set (poll_states s (out # outs)). progress s \<le> progress t \<and> progress t \<le> 100"
      using IH up Cons.prems(1) by (auto simp: s'_def [symmetric])
    have srt: "sorted (map progress (poll_states s (out # outs)))"
      using IH up by (auto simp: s'_def [symmetric])
    have hundred: "\<forall>k<length (out # outs).
        progress (poll_states s (out # outs) ! Suc k) = 100 \<longrightarrow> terminal ((out # outs) ! k)"
    proof (intro allI impI)
      fix k assume k: "k < length (out # outs)"
        and h: "progress (poll_states s (out # outs) ! Suc k) = 100"
      show "terminal ((out # outs) ! k)"
      proof (cases k)
        case 0
        with h fin show ?thesis by (simp add: s'_def [symmetric] poll_states_head)
      next
        case (Suc k')
        with k h IH show ?thesis by (simp add: s'_def [symmetric])
      qed
    qed
    from all srt hundred show ?thesis by blast
  qed
qed

lemma poll_states_three:
  "map (\<lambda>t. (jobId t, progress t)) (poll_states (ui (world_tracking ''A'' [])) three_answers) =
     [(JStr ''A'', 5), (JStr ''A'', 5), (JStr ''A'', 50), (JNull, 100)]"
  by (simp add: three_answers_def world_tracking_def model_defs example_defs)

lemma get_prop_throws: "get_prop k v = Inl e \<Longrightarrow> e = TypeError"
  by (cases v) (auto split: option.splits)

lemma poll_callback_error_thrown:
  "apiFetch out = Inl e \<Longrightarrow> error (poll_callback out s) = Some (displayed poll_fallback e)"
  by (simp add: poll_callback_def poll_catch_def)

lemma url_continuation_progress: "progress (url_continuation out s) = progress s"
  by (simp add: url_continuation_def submit_catch_def split: sum.splits)

lemma upload_continuation_progress: "progress (upload_continuation out s) = progress s"
  by (simp add: upload_continuation_def submit_catch_def split: sum.splits)

lemma submit_begin_fields:
  "submit_begin s = \<lparr>jobId = JNull, result = JNull, isLoading = True, error = None, progress = 5\<rparr>"
  by (cases s) (simp add: submit_begin_def resetState_def)

lemma step_progress:
  assumes "progress (ui w) \<in> {0, 5, 50, 100}" and "step e w = Some w'"
  shows "progress (ui w') \<in> {0, 5, 50, 100}"
proof (cases e)
  case (SubmitUrl url accepted lang)
  with assms show ?thesis
    by (auto simp: handleSubmitUrl_def submit_begin_fields split: if_splits)
next
  case (SubmitFile has_file lang)
  with assms show ?thesis
    by (auto simp: handleSubmitFile_def submit_begin_fields split: if_splits)
next
  case Tick
  with assms show ?thesis
    by (auto simp: poll_catch_def split: option.splits sum.splits)
next
  case (PollSettles i out)
  with assms show ?thesis
    by (auto simp: poll_callback_progress split: if_splits)
next
  case (UrlSettles i out)
  with assms show ?thesis
    by (auto simp: url_continuation_progress split: if_splits)
next
  case (UploadSettles i out)
  with assms show ?thesis
    by (auto simp: upload_continuation_progress split: if_splits)
qed

lemma run_progress:
  "progress (ui w) \<in> {0, 5, 50, 100} \<Longrightarrow> run evs w = Some w' \<Longrightarrow> progress (ui w') \<in> {0, 5, 50, 100}"
proof (induction evs arbitrary: w)
  case Nil
  then show ?case by simp
next
  case (Cons e evs)
  from Cons.prems(2) obtain w1 where "step e w = Some w1" "run evs w1 = Some w'"
    by (auto split: option.splits)
  with Cons.IH [of w1] step_progress [OF Cons.prems(1)] show ?case by blast
qed

lemma reachable_progress:
  "run evs initial_world = Some w \<Longrightarrow> progress (ui w) \<in> {0, 5, 50, 100}"
  using run_progress [of initial_world evs w] by (simp add: initial_world_def initial_session_def)

text \<open>After a submission made with nothing in flight, only its own answer can come next.\<close>

lemma clean_url_submission:
  assumes "effect_current w" and "polls w = []" and "url_posts w = []" and "uploads w = []"
    and "step e (handleSubmitUrl url lang w) = Some w2"
  shows "(\<exists>out. e = UrlSettles 0 out) \<and> progress (ui w2) = 5"
proof -
  define w1 where "w1 = handleSubmitUrl url lang w"
  have ui1: "ui w1 = \<lparr>jobId = JNull, result = JNull, isLoading = True, error = None, progress = 5\<rparr>"
    by (simp add: w1_def handleSubmitUrl_def submit_begin_fields)
  have "effect_current (commit (submit_begin (ui w)) w)"
    using assms(1) by (rule commit_effect_current)
  then have int1: "interval w1 = None"
    by (simp add: w1_def handleSubmitUrl_def effect_current_def polling_effect_falsy submit_begin_fields)
  have fl: "polls w1 = []" "url_posts w1 = [(url, lang)]" "uploads w1 = []"
    using assms(2,3,4) by (simp_all add: w1_def handleSubmitUrl_def commit_def)
  from assms(5) have st: "step e w1 = Some w2" by (simp add: w1_def)
  show ?thesis
  proof (cases e)
    case (UrlSettles i out)
    with st fl have "i = 0" by (auto split: if_splits)
    moreover from st UrlSettles have "ui w2 = url_continuation out (ui w1)"
      by (auto split: if_splits)
    ultimately show ?thesis using UrlSettles ui1 by (simp add: url_continuation_progress)
  qed (use st ui1 int1 fl in \<open>auto split: if_splits\<close>)
qed

lemma clean_file_submission:
  assumes "effect_current w" and "polls w = []" and "url_posts w = []" and "uploads w = []"
    and "step e (handleSubmitFile True lang w) = Some w2"
  shows "(\<exists>out. e = UploadSettles 0 out) \<and> progress (ui w2) = 5"
proof -
  define w1 where "w1 = handleSubmitFile True lang w"
  have ui1: "ui w1 = \<lparr>jobId = JNull, result = JNull, isLoading = True, error = None, progress = 5\<rparr>"
    by (simp add: w1_def handleSubmitFile_def submit_begin_fields)
  have "effect_current (commit (submit_begin (ui w)) w)"
    using assms(1) by (rule commit_effect_current)
  then have int1: "interval w1 = None"
    by (simp add: w1_def handleSubmitFile_def effect_current_def polling_effect_falsy submit_begin_fields)
  have fl: "polls w1 = []" "url_posts w1 = []" "uploads w1 = [lang]"
    using assms(2,3,4) by (simp_all add: w1_def handleSubmitFile_def commit_def)
  from assms(5) have st: "step e w1 = Some w2" by (simp add: w1_def)
  show ?thesis
  proof (cases e)
    case (UploadSettles i out)
    with st fl have "i = 0" by (auto split: if_splits)
    moreover from st UploadSettles have "ui w2 = upload_continuation out (ui w1)"
      by (auto split: if_splits)
    ultimately show ?thesis using UploadSettles ui1 by (simp add: upload_continuation_progress)
  qed (use st ui1 int1 fl in \<open>auto split: if_splits\<close>)
qed

section \<open>Stale responses (C1)\<close>

text \<open>
  C1, as the code has it. The callback has no check of the job id: the response to a status
  request is applied in the same way whatever job the request was for and whatever job is
  active now, so a response that \<^verbatim>\<open>apiFetch\<close> returns becomes \<^verbatim>\<open>result\<close> (the spec's
  \<^verbatim>\<open>lastSnapshot\<close>) also when its job was superseded. What superseding a job does guarantee
  concerns new requests only: in every reachable state a tick sends its status request for
  the job id that is active now (and sends none when that id has no string form).
\<close>

theorem stale_response_applied:
  assumes "run evs initial_world = Some w" and "i < length (polls w)"
  shows "(\<exists>w'. step (PollSettles i out) w = Some w' \<and> ui w' = poll_callback out (ui w) \<and>
               (\<forall>data. apiFetch out = Inr data \<longrightarrow> result (ui w') = data)) \<and>
         (\<forall>w''. step Tick w = Some w'' \<longrightarrow>
            polls w'' = (case to_string (jobId (ui w)) of
                          Inl e \<Rightarrow> polls w
                        | Inr url \<Rightarrow> polls w @ [jobId (ui w)]))"
proof -
  have "interval w = polling_effect (ui w)"
    using assms(1) by (rule reachable_effect_current)
  then have "\<forall>w''. step Tick w = Some w'' \<longrightarrow>
            polls w'' = (case to_string (jobId (ui w)) of
                          Inl e \<Rightarrow> polls w
                        | Inr url \<Rightarrow> polls w @ [jobId (ui w)])"
    by (auto simp: commit_def split: option.splits sum.splits dest: polling_effect_Some)
  moreover have "\<exists>w'. step (PollSettles i out) w = Some w' \<and> ui w' = poll_callback out (ui w) \<and>
               (\<forall>data. apiFetch out = Inr data \<longrightarrow> result (ui w') = data)"
    using assms(2) by (simp add: poll_callback_result)
  ultimately show ?thesis by blast
qed

theorem stale_response_applied_witness:
  "run superseded initial_world = Some (world_tracking ''B'' [JStr ''A'']) \<and>
   (\<exists>w'. step (PollSettles 0 (status_reply ''processing'')) (world_tracking ''B'' [JStr ''A'']) = Some w' \<and>
         result (ui w') = JObj [(''status'', JStr ''processing'')]) \<and>
   step Tick (world_tracking ''B'' [JStr ''A'']) = Some (world_tracking ''B'' [JStr ''A'', JStr ''B''])"
proof -
  have r: "run superseded initial_world = Some (world_tracking ''B'' [JStr ''A''])"
    by (rule run_superseded)
  have l: "0 < length (polls (world_tracking ''B'' [JStr ''A'']))"
    by (simp add: world_tracking_def)
  have f: "apiFetch (status_reply ''processing'') = Inr (JObj [(''status'', JStr ''processing'')])"
    by (simp add: status_reply_def ok_body_def response_ok_def)
  have t: "step Tick (world_tracking ''B'' [JStr ''A'']) = Some (world_tracking ''B'' [JStr ''A'', JStr ''B''])"
    by (simp add: world_tracking_def)
  from stale_response_applied [OF r l, of "status_reply ''processing''"] f
  have "\<exists>w'. step (PollSettles 0 (status_reply ''processing'')) (world_tracking ''B'' [JStr ''A'']) = Some w' \<and>
         result (ui w') = JObj [(''status'', JStr ''processing'')]"
    by blast
  moreover from stale_response_applied [OF r l, of "status_reply ''processing''"] t
  have "polls (world_tracking ''B'' [JStr ''A'', JStr ''B'']) = [JStr ''A'', JStr ''B'']"
    by (simp add: world_tracking_def)
  ultimately show ?thesis using r t by blast
qed

text \<open>
  The claim as the spec states it fails: after the execution \<open>superseded\<close> job B is active and
  one status request for job A is still in flight; when it is answered with status completed,
  the answer replaces the snapshot, sets the progress to 100, clears the busy flag and the
  active job id, and so ends the polling of B.
\<close>

theorem stale_response_mutates_state:
  "run superseded initial_world =
     Some \<lparr>ui = \<lparr>jobId = JStr ''B'', result = JObj [(''status'', JStr ''pending'')],
                 isLoading = True, error = None, progress = 5\<rparr>,
           interval = Some (JStr ''B''), polls = [JStr ''A''],
           url_posts = [], uploads = []\<rparr> \<and>
   run (superseded @ [PollSettles 0 (status_reply ''completed'')]) initial_world =
     Some \<lparr>ui = \<lparr>jobId = JNull, result = JObj [(''status'', JStr ''completed'')],
                 isLoading = False, error = None, progress = 100\<rparr>,
           interval = None, polls = [],
           url_posts = [], uploads = []\<rparr>"
  by (simp add: model_defs example_defs)

section \<open>Overlapping status requests (C2)\<close>

text \<open>
  C2, as the code has it. The poller is a \<^verbatim>\<open>setInterval\<close>: in every reachable state the
  installed interval is the one the effect installs for the current \<^verbatim>\<open>jobId\<close> and \<^verbatim>\<open>result\<close>
  (there is one exactly while a job id is set and the snapshot is not terminal, and it polls
  for the active job), and a firing does not wait for the requests sent before: \<open>n\<close> firings
  in a row leave \<open>n\<close> more status requests for the same job in flight. Only for a job id
  without a string form does the first firing send nothing and end the polling instead.
\<close>

theorem interval_does_not_wait:
  assumes "run evs initial_world = Some w"
  shows "interval w = polling_effect (ui w) \<and>
         (\<forall>j n. interval w = Some j \<longrightarrow>
            j = jobId (ui w) \<and>
            (\<forall>url. to_string j = Inr url \<longrightarrow>
               run (replicate n Tick) w = Some (w\<lparr>polls := polls w @ replicate n j\<rparr>)) \<and>
            (\<forall>e. to_string j = Inl e \<longrightarrow>
               (\<exists>w'. step Tick w = Some w' \<and> polls w' = polls w \<and> interval w' = None)))"
proof -
  have cur: "effect_current w"
    using run_effect_current [OF initial_effect_current assms] .
  then have eff: "interval w = polling_effect (ui w)" by (simp add: effect_current_def)
  moreover have "j = jobId (ui w)" if "interval w = Some j" for j
    using that eff by (auto dest: polling_effect_Some)
  moreover have "run (replicate n Tick) w = Some (w\<lparr>polls := polls w @ replicate n j\<rparr>)"
    if "interval w = Some j" "to_string j = Inr url" for j n url
    using that by (rule run_ticks)
  moreover have "\<exists>w'. step Tick w = Some w' \<and> polls w' = polls w \<and> interval w' = None"
    if "interval w = Some j" "to_string j = Inl e" for j e
    using tick_without_url [OF cur that] by blast
  ultimately show ?thesis by blast
qed

theorem interval_does_not_wait_witness:
  "run tracking_A initial_world = Some (world_tracking ''A'' []) \<and>
   interval (world_tracking ''A'' []) = Some (JStr ''A'') \<and>
   to_string (JStr ''A'') = Inr ''A'' \<and>
   run [Tick, Tick, Tick] (world_tracking ''A'' []) =
     Some (world_tracking ''A'' [JStr ''A'', JStr ''A'', JStr ''A'']) \<and>
   run tracking_odd initial_world =
     Some \<lparr>ui = \<lparr>jobId = odd_job, result = pending_snapshot, isLoading = True, error = None,
                 progress = 5\<rparr>,
           interval = Some odd_job, polls = [], url_posts = [], uploads = []\<rparr> \<and>
   to_string odd_job = Inl TypeError \<and>
   (\<exists>w'. step Tick
           \<lparr>ui = \<lparr>jobId = odd_job, result = pending_snapshot, isLoading = True, error = None,
                   progress = 5\<rparr>,
             interval = Some odd_job, polls = [], url_posts = [], uploads = []\<rparr> = Some w' \<and>
         polls w' = [] \<and> interval w' = None)"
proof -
  let ?odd = "\<lparr>ui = \<lparr>jobId = odd_job, result = pending_snapshot, isLoading = True, error = None,
                   progress = 5\<rparr>,
             interval = Some odd_job, polls = [], url_posts = [], uploads = []\<rparr>"
  have r: "run tracking_A initial_world = Some (world_tracking ''A'' [])"
    by (rule run_tracking_A)
  have i: "interval (world_tracking ''A'' []) = Some (JStr ''A'')"
    by (simp add: world_tracking_def)
  have u: "to_string (JStr ''A'') = Inr ''A''" by simp
  from interval_does_not_wait [OF r] i u
  have "run (replicate 3 Tick) (world_tracking ''A'' []) =
          Some ((world_tracking ''A'' [])\<lparr>polls := polls (world_tracking ''A'' []) @ replicate 3 (JStr ''A'')\<rparr>)"
    by blast
  then have three: "run [Tick, Tick, Tick] (world_tracking ''A'' []) =
     Some (world_tracking ''A'' [JStr ''A'', JStr ''A'', JStr ''A''])"
    by (simp add: world_tracking_def numeral_3_eq_3)
  have ro: "run tracking_odd initial_world = Some ?odd"
    by (simp add: model_defs example_defs)
  have io: "interval ?odd = Some odd_job" by simp
  have uo: "to_string odd_job = Inl TypeError" by (simp add: odd_job_def)
  note throws = interval_does_not_wait [OF ro, THEN conjunct2, rule_format, OF io,
      THEN conjunct2, THEN conjunct2, rule_format, OF uo]
  have po: "polls ?odd = []" by simp
  from throws have "\<exists>w'. step Tick ?odd = Some w' \<and> polls w' = [] \<and> interval w' = None"
    unfolding po .
  with r i u three ro uo show ?thesis by blast
qed

text \<open>
  The claim as the spec states it fails: when the first answer takes longer than the period,
  the interval fires again and two status requests for job A are in flight together.
\<close>

theorem two_requests_in_flight:
  "run [SubmitUrl ''https://x/y.png'' True ''es'', UrlSettles 0 (job_created ''A''), Tick, Tick]
       initial_world =
     Some \<lparr>ui = \<lparr>jobId = JStr ''A'', result = JObj [(''status'', JStr ''pending'')],
                 isLoading = True, error = None, progress = 5\<rparr>,
           interval = Some (JStr ''A''), polls = [JStr ''A'', JStr ''A''],
           url_posts = [], uploads = []\<rparr>"
  by (simp add: model_defs example_defs)

section \<open>Terminal status (C3)\<close>

text \<open>
  C3. In every reachable state, when a status request ends with a response that \<^verbatim>\<open>apiFetch\<close>
  returns and whose status is completed or failed, then afterwards \<^verbatim>\<open>result\<close> is that
  response, \<^verbatim>\<open>progress\<close> is 100, \<^verbatim>\<open>isLoading\<close> is false, no job id is set, no interval is
  installed (so no tick can happen), and in every further execution made of polling events
  only (that is, until something is submitted again) no tick happens and no status request
  is added to those in flight.
\<close>

theorem terminal_status_stops_polling:
  assumes "run evs initial_world = Some w" and "i < length (polls w)"
    and "apiFetch out = Inr data"
    and "get_prop ''status'' data = Inr (JStr ''completed'') \<or>
         get_prop ''status'' data = Inr (JStr ''failed'')"
  shows "\<exists>w'. step (PollSettles i out) w = Some w' \<and>
           result (ui w') = data \<and> progress (ui w') = 100 \<and> \<not> isLoading (ui w') \<and>
           jobId (ui w') = JNull \<and> interval w' = None \<and> step Tick w' = None \<and>
           (\<forall>evs' w''. (\<forall>e\<in>set evs'. is_poll_event e) \<and> run evs' w' = Some w'' \<longrightarrow>
              Tick \<notin> set evs' \<and> interval w'' = None \<and> set (polls w'') \<subseteq> set (polls w'))"
proof -
  define w' where "w' = commit (poll_callback out (ui w)) (w\<lparr>polls := remove_nth i (polls w)\<rparr>)"
  have st: "step (PollSettles i out) w = Some w'"
    using assms(2) by (simp add: w'_def)
  have fin: "terminal out"
    using assms(3,4) by (auto simp: terminal_def received_status_def)
  have cur: "effect_current w'"
    using run_effect_current [OF initial_effect_current assms(1)] st
    by (rule step_effect_current)
  have ui: "ui w' = poll_callback out (ui w)" by (simp add: w'_def)
  have job: "jobId (ui w') = JNull"
    using fin by (simp add: ui poll_callback_jobId)
  then have falsy: "\<not> truthy (jobId (ui w'))" by simp
  have none: "interval w' = None"
    using cur falsy by (simp add: effect_current_def polling_effect_falsy)
  have load: "\<not> isLoading (ui w')"
    using assms(3,4) by (auto simp: ui poll_callback_def Let_def)
  have "result (ui w') = data" using assms(3) by (simp add: ui poll_callback_result)
  moreover have "progress (ui w') = 100" using fin by (simp add: ui poll_callback_progress)
  moreover have "\<forall>evs' w''. (\<forall>e\<in>set evs'. is_poll_event e) \<and> run evs' w' = Some w'' \<longrightarrow>
              Tick \<notin> set evs' \<and> interval w'' = None \<and> set (polls w'') \<subseteq> set (polls w')"
    using stopped_run [OF cur falsy] by blast
  ultimately show ?thesis using st job none load by simp
qed

theorem terminal_status_stops_polling_witness:
  "run two_in_flight initial_world = Some (world_tracking ''A'' [JStr ''A'', JStr ''A'']) \<and>
   apiFetch (status_reply ''completed'') = Inr (JObj [(''status'', JStr ''completed'')]) \<and>
   (\<exists>w'. step (PollSettles 0 (status_reply ''completed'')) (world_tracking ''A'' [JStr ''A'', JStr ''A'']) = Some w' \<and>
      result (ui w') = JObj [(''status'', JStr ''completed'')] \<and> progress (ui w') = 100 \<and>
      \<not> isLoading (ui w') \<and> interval w' = None \<and> step Tick w' = None)"
proof -
  have r: "run two_in_flight initial_world = Some (world_tracking ''A'' [JStr ''A'', JStr ''A''])"
    by (rule run_two_in_flight)
  have l: "0 < length (polls (world_tracking ''A'' [JStr ''A'', JStr ''A'']))"
    by (simp add: world_tracking_def)
  have f: "apiFetch (status_reply ''completed'') = Inr (JObj [(''status'', JStr ''completed'')])"
    by (simp add: status_reply_def ok_body_def response_ok_def)
  have g: "get_prop ''status'' (JObj [(''status'', JStr ''completed'')]) = Inr (JStr ''completed'') \<or>
           get_prop ''status'' (JObj [(''status'', JStr ''completed'')]) = Inr (JStr ''failed'')"
    by simp
  from terminal_status_stops_polling [OF r l f g] r f show ?thesis by blast
qed

section \<open>Failed status request (C4)\<close>



section \<open>Progress over the ticks of one job (C5)\<close>

text \<open>
  C5, as the code has it. In every reachable state the progress is one of 0, 5, 50 and 100.
  The end of a status request makes it 100 only with a status completed or failed (or leaves
  it at 100), and lowers it in one case only: from 100 to 50, with status processing. When a
  submission is made with no request in flight, the only event that can follow is its own
  answer, and the progress is 5 after it. For a session whose progress is at most 50, and any
  list of request outcomes such that job \<open>j\<close> is the active job whenever one of them is
  applied: in every state gone through the progress is between 0 and 100, it never decreases
  from one state to the next, and a state has progress 100 only if the outcome applied just
  before it had status completed or failed.
\<close>

theorem progress_over_ticks:
  "(run evs initial_world = Some w \<longrightarrow>
      progress (ui w) \<in> {0, 5, 50, 100} \<and>
      (\<forall>i out w'. step (PollSettles i out) w = Some w' \<longrightarrow>
         (progress (ui w') = 100 \<longrightarrow> terminal out \<or> progress (ui w) = 100) \<and>
         (progress (ui w') < progress (ui w) \<longrightarrow>
            progress (ui w) = 100 \<and> received_status out = Some (JStr ''processing'') \<and>
            progress (ui w') = 50)) \<and>
      (polls w = [] \<and> url_posts w = [] \<and> uploads w = [] \<longrightarrow>
         (\<forall>e w2. step e (handleSubmitUrl url lang w) = Some w2 \<longrightarrow>
            (\<exists>out. e = UrlSettles 0 out) \<and> progress (ui w2) = 5) \<and>
         (\<forall>e w2. step e (handleSubmitFile True lang w) = Some w2 \<longrightarrow>
            (\<exists>out. e = UploadSettles 0 out) \<and> progress (ui w2) = 5))) \<and>
   (truthy j \<and> 0 \<le> progress s \<and> progress s \<le> 50 \<and>
    (\<forall>k<length outs. jobId (poll_states s outs ! k) = j) \<longrightarrow>
      (\<forall>t\<in>set (poll_states s outs). 0 \<le> progress t \<and> progress t \<le> 100) \<and>
      sorted (map progress (poll_states s outs)) \<and>
      (\<forall>k<length outs. progress (poll_states s outs ! Suc k) = 100 \<longrightarrow> terminal (outs ! k)))"
proof -
  have reach: "progress (ui w) \<in> {0, 5, 50, 100} \<and>
      (\<forall>i out w'. step (PollSettles i out) w = Some w' \<longrightarrow>
         (progress (ui w') = 100 \<longrightarrow> terminal out \<or> progress (ui w) = 100) \<and>
         (progress (ui w') < progress (ui w) \<longrightarrow>
            progress (ui w) = 100 \<and> received_status out = Some (JStr ''processing'') \<and>
            progress (ui w') = 50)) \<and>
      (polls w = [] \<and> url_posts w = [] \<and> uploads w = [] \<longrightarrow>
         (\<forall>e w2. step e (handleSubmitUrl url lang w) = Some w2 \<longrightarrow>
            (\<exists>out. e = UrlSettles 0 out) \<and> progress (ui w2) = 5) \<and>
         (\<forall>e w2. step e (handleSubmitFile True lang w) = Some w2 \<longrightarrow>
            (\<exists>out. e = UploadSettles 0 out) \<and> progress (ui w2) = 5))"
    if r: "run evs initial_world = Some w"
  proof -
    have cur: "effect_current w"
      using run_effect_current [OF initial_effect_current r] .
    have vals: "progress (ui w) \<in> {0, 5, 50, 100}"
      using r by (rule reachable_progress)
    have one: "(progress (ui w') = 100 \<longrightarrow> terminal out \<or> progress (ui w) = 100) \<and>
         (progress (ui w') < progress (ui w) \<longrightarrow>
            progress (ui w) = 100 \<and> received_status out = Some (JStr ''processing'') \<and>
            progress (ui w') = 50)"
      if "step (PollSettles i out) w = Some w'" for i out w'
    proof -
      from that have "ui w' = poll_callback out (ui w)" by (auto split: if_splits)
      with vals show ?thesis
        by (auto simp: poll_callback_progress split: if_splits)
    qed
    show ?thesis
      using vals one clean_url_submission [OF cur] clean_file_submission [OF cur]
      by blast
  qed
  have seq: "(\<forall>t\<in>set (poll_states s outs). 0 \<le> progress t \<and> progress t \<le> 100) \<and>
      sorted (map progress (poll_states s outs)) \<and>
      (\<forall>k<length outs. progress (poll_states s outs ! Suc k) = 100 \<longrightarrow> terminal (outs ! k))"
    if "truthy j" "0 \<le> progress s \<and> progress s \<le> 50"
      "\<forall>k<length outs. jobId (poll_states s outs ! k) = j"
    using poll_states_bounded [OF that] that(2) by fastforce
  from reach seq show ?thesis by blast
qed

theorem progress_over_ticks_witness:
  "run [] initial_world = Some initial_world \<and>
   polls initial_world = [] \<and> url_posts initial_world = [] \<and> uploads initial_world = [] \<and>
   progress (ui initial_world) = 0 \<and>
   step (UrlSettles 0 (job_created ''A'')) (handleSubmitUrl ''https://x/y.png'' ''es'' initial_world) =
     Some (world_tracking ''A'' []) \<and>
   progress (ui (world_tracking ''A'' [])) = 5 \<and>
   truthy (JStr ''A'') \<and>
   map jobId (poll_states (ui (world_tracking ''A'' [])) three_answers) =
     [JStr ''A'', JStr ''A'', JStr ''A'', JNull] \<and>
   map progress (poll_states (ui (world_tracking ''A'' [])) three_answers) = [5, 5, 50, 100] \<and>
   sorted (map progress (poll_states (ui (world_tracking ''A'' [])) three_answers)) \<and>
   terminal (three_answers ! 2) \<and>
   run (tracking_A @ [Tick]) initial_world = Some (world_tracking ''A'' [JStr ''A'']) \<and>
   step (PollSettles 0 (status_reply ''completed'')) (world_tracking ''A'' [JStr ''A'']) =
     Some (commit (poll_callback (status_reply ''completed'') (ui (world_tracking ''A'' [])))
            (world_tracking ''A'' [])) \<and>
   progress (poll_callback (status_reply ''completed'') (ui (world_tracking ''A'' []))) = 100 \<and>
   terminal (status_reply ''completed'')"
proof -
  let ?s = "ui (world_tracking ''A'' [])"
  let ?w1 = "world_tracking ''A'' [JStr ''A'']"
  let ?w2 = "commit (poll_callback (status_reply ''completed'') ?s) (world_tracking ''A'' [])"
  note inst = progress_over_ticks [where evs = "[]" and w = initial_world
      and url = "''https://x/y.png''" and lang = "''es''" and j = "JStr ''A''" and s = ?s
      and outs = three_answers]
  note inst2 = progress_over_ticks [where evs = "tracking_A @ [Tick]" and w = ?w1]
  have r: "run [] initial_world = Some initial_world" by simp
  have fl: "polls initial_world = []" "url_posts initial_world = []" "uploads initial_world = []"
    by (simp_all add: initial_world_def)
  have p0: "progress (ui initial_world) = 0" by (simp add: initial_world_def initial_session_def)
  have st: "step (UrlSettles 0 (job_created ''A'')) (handleSubmitUrl ''https://x/y.png'' ''es'' initial_world) =
     Some (world_tracking ''A'' [])"
    by (simp add: model_defs example_defs world_tracking_def)
  from inst [THEN conjunct1, rule_format, OF r, THEN conjunct2, THEN conjunct2, rule_format,
      THEN conjunct1, rule_format, OF _ st] fl
  have p5: "progress ?s = 5" by simp
  have t: "truthy (JStr ''A'')" by simp
  have js: "map jobId (poll_states ?s three_answers) = [JStr ''A'', JStr ''A'', JStr ''A'', JNull]"
    using poll_states_three [THEN arg_cong, of "map fst"] by (simp add: comp_def)
  have ps: "map progress (poll_states ?s three_answers) = [5, 5, 50, 100]"
    using poll_states_three [THEN arg_cong, of "map snd"] by (simp add: comp_def)
  have len: "length three_answers = 3" by (simp add: three_answers_def)
  have a: "\<forall>k<length three_answers. jobId (poll_states ?s three_answers ! k) = JStr ''A''"
  proof (intro allI impI)
    fix k assume "k < length three_answers"
    then have k: "k < 3" by (simp add: len)
    then have "k < length (poll_states ?s three_answers)"
      using js [THEN arg_cong, of length] by simp
    then have "jobId (poll_states ?s three_answers ! k) = map jobId (poll_states ?s three_answers) ! k"
      by simp
    also have "\<dots> = JStr ''A''"
      using k by (auto simp: js less_Suc_eq numeral_3_eq_3)
    finally show "jobId (poll_states ?s three_answers ! k) = JStr ''A''" .
  qed
  have hyp: "truthy (JStr ''A'') \<and> 0 \<le> progress ?s \<and> progress ?s \<le> 50 \<and>
      (\<forall>k<length three_answers. jobId (poll_states ?s three_answers ! k) = JStr ''A'')"
    using t p5 a by simp
  note seq = inst [THEN conjunct2, rule_format, OF hyp]
  from seq have srt: "sorted (map progress (poll_states ?s three_answers))"
    by (rule conjunct2 [THEN conjunct1])
  from seq have fin: "\<forall>k<length three_answers.
        progress (poll_states ?s three_answers ! Suc k) = 100 \<longrightarrow> terminal (three_answers ! k)"
    by (rule conjunct2 [THEN conjunct2])
  have two: "2 < length three_answers" by (simp add: len)
  have "progress (poll_states ?s three_answers ! Suc 2) = 100"
  proof -
    have "Suc 2 < length (poll_states ?s three_answers)"
      using ps [THEN arg_cong, of length] by simp
    then have "progress (poll_states ?s three_answers ! Suc 2) = map progress (poll_states ?s three_answers) ! Suc 2"
      by simp
    then show ?thesis by (simp add: ps numeral_2_eq_2)
  qed
  with fin [rule_format, OF two] have term3: "terminal (three_answers ! 2)" by simp
  have rT: "run (tracking_A @ [Tick]) initial_world = Some ?w1"
    by (simp add: model_defs example_defs world_tracking_def)
  have st2: "step (PollSettles 0 (status_reply ''completed'')) ?w1 = Some ?w2"
    by (simp add: world_tracking_def remove_nth_def)
  have p100: "progress (poll_callback (status_reply ''completed'') ?s) = 100"
    by (simp add: model_defs example_defs world_tracking_def)
  have before: "progress (ui ?w1) \<noteq> 100" by (simp add: world_tracking_def)
  note one = inst2 [THEN conjunct1, rule_format, OF rT, THEN conjunct2, THEN conjunct1,
      rule_format, OF st2, THEN conjunct1, rule_format]
  from one p100 before have termc: "terminal (status_reply ''completed'')" by simp
  show ?thesis
    using r fl p0 st p5 t js ps srt term3 rT st2 p100 termc by simp
qed

text \<open>
  The claim as the spec states it fails: in the execution \<open>late_answer\<close> the second answer
  for job A arrives while the submission that creates job B is awaited. Job B becomes active
  with progress 100 and a snapshot in status pending, and the first answer for B, with status
  processing, lowers the progress to 50.
\<close>

theorem progress_decreases_after_late_answer:
  "run late_answer initial_world =
     Some \<lparr>ui = \<lparr>jobId = JStr ''B'', result = JObj [(''status'', JStr ''pending'')],
                 isLoading = False, error = None, progress = 100\<rparr>,
           interval = Some (JStr ''B''), polls = [JStr ''B''],
           url_posts = [], uploads = []\<rparr> \<and>
   run (late_answer @ [PollSettles 0 (status_reply ''processing'')]) initial_world =
     Some \<lparr>ui = \<lparr>jobId = JStr ''B'', result = JObj [(''status'', JStr ''processing'')],
                 isLoading = False, error = None, progress = 50\<rparr>,
           interval = Some (JStr ''B''), polls = [],
           url_posts = [], uploads = []\<rparr>"
  by (simp add: model_defs example_defs)

section \<open>The message shown after a failed status request (C6)\<close>

text \<open>
  C6, as the code has it. After a status request that was answered with a status that is not
  ok and a body whose \<^verbatim>\<open>message\<close> member is a string that is not empty, \<^verbatim>\<open>error\<close> is exactly
  that string. After a request with no response, or with a body that is not JSON, \<^verbatim>\<open>error\<close>
  is the fixed text of the polling context. After any failed status request \<^verbatim>\<open>error\<close> is a
  string that is not empty, provided the \<^verbatim>\<open>message\<close> member of an answer that is not ok is
  not an array.
\<close>

theorem poll_error_message:
  "(\<not> response_ok st \<and> get_prop ''message'' body = Inr (JStr m) \<and> m \<noteq> [] \<longrightarrow>
      error (poll_callback (Responded st (Some body)) s) = Some m) \<and>
   error (poll_callback Rejected s) = Some ''An unknown error occurred while fetching results.'' \<and>
   error (poll_callback (Responded st None) s) =
     Some ''An unknown error occurred while fetching results.'' \<and>
   (received_status out = None \<and>
    (\<forall>c b xs. out = Responded c (Some b) \<and> \<not> response_ok c \<longrightarrow>
       get_prop ''message'' b \<noteq> Inr (JArr xs)) \<longrightarrow>
      (\<exists>msg. error (poll_callback out s) = Some msg \<and> msg \<noteq> []))"
proof -
  have verbatim: "error (poll_callback (Responded st (Some body)) s) = Some m"
    if "\<not> response_ok st" "get_prop ''message'' body = Inr (JStr m)" "m \<noteq> []"
  proof -
    have "apiFetch (Responded st (Some body)) = Inl (ApiError m st body)"
      using that by (simp add: js_or_def)
    then show ?thesis by (simp add: poll_callback_error_thrown)
  qed
  have rejected: "error (poll_callback Rejected s) = Some ''An unknown error occurred while fetching results.''"
    by (simp add: poll_callback_error_thrown poll_fallback_def)
  have unparsed: "error (poll_callback (Responded st None) s) =
     Some ''An unknown error occurred while fetching results.''"
    by (simp add: poll_callback_error_thrown poll_fallback_def)
  have nonempty: "\<exists>msg. error (poll_callback out s) = Some msg \<and> msg \<noteq> []"
    if none: "received_status out = None"
      and arr: "\<forall>c b xs. out = Responded c (Some b) \<and> \<not> response_ok c \<longrightarrow>
                 get_prop ''message'' b \<noteq> Inr (JArr xs)"
  proof (cases "apiFetch out")
    case (Inl e)
    from displayed_apiFetch_nonempty [OF Inl arr] Inl show ?thesis
      by (simp add: poll_callback_error_thrown)
  next
    case (Inr data)
    with none obtain e where e: "get_prop ''status'' data = Inl e"
      by (auto simp: received_status_def split: sum.splits)
    then have "e = TypeError" by (rule get_prop_throws)
    with Inr e show ?thesis
      by (simp add: poll_callback_def poll_catch_def poll_fallback_def)
  qed
  from verbatim rejected unparsed nonempty show ?thesis by blast
qed

theorem poll_error_message_witness:
  "\<not> response_ok 500 \<and>
   get_prop ''message'' (JObj [(''message'', JStr ''bad image'')]) = Inr (JStr ''bad image'') \<and>
   error (poll_callback (Responded 500 (Some (JObj [(''message'', JStr ''bad image'')]))) initial_session) =
     Some ''bad image'' \<and>
   error (poll_callback Rejected initial_session) =
     Some ''An unknown error occurred while fetching results.'' \<and>
   received_status (Responded 500 (Some (JObj [(''message'', JNum 42)]))) = None \<and>
   get_prop ''message'' (JObj [(''message'', JNum 42)]) = Inr (JNum 42) \<and>
   error (poll_callback (Responded 500 (Some (JObj [(''message'', JNum 42)]))) initial_session) =
     Some ''42''"
proof -
  let ?out = "Responded 500 (Some (JObj [(''message'', JNum 42)]))"
  have a: "\<not> response_ok 500" by (simp add: response_ok_def)
  have b: "get_prop ''message'' (JObj [(''message'', JStr ''bad image'')]) = Inr (JStr ''bad image'')"
    by simp
  have c: "received_status ?out = None"
    by (simp add: received_status_def response_ok_def js_or_def)
  have d: "get_prop ''message'' (JObj [(''message'', JNum 42)]) = Inr (JNum 42)" by simp
  have e: "\<forall>c b xs. ?out = Responded c (Some b) \<and> \<not> response_ok c \<longrightarrow>
             get_prop ''message'' b \<noteq> Inr (JArr xs)"
    by simp
  have f: "error (poll_callback ?out initial_session) = Some ''42''"
    by (simp add: model_defs string_of_int_def string_of_nat.simps)
  from poll_error_message [of 500 "JObj [(''message'', JStr ''bad image'')]" "''bad image''" initial_session ?out]
    a b c e obtain msg where
    "error (poll_callback (Responded 500 (Some (JObj [(''message'', JStr ''bad image'')]))) initial_session) =
       Some ''bad image''"
    "error (poll_callback Rejected initial_session) = Some ''An unknown error occurred while fetching results.''"
    "error (poll_callback ?out initial_session) = Some msg" "msg \<noteq> []"
    by auto
  with a b c d f show ?thesis by simp
qed

text \<open>
  The claim as the spec states it fails twice. A \<^verbatim>\<open>message\<close> member that is the empty
  string is not shown verbatim: \<^verbatim>\<open>data.message || "An API error occurred"\<close> replaces it by
  the wrapper's text. A \<^verbatim>\<open>message\<close> member that is the empty array is truthy and its string
  form is empty, so the error shown is the empty string.
\<close>

theorem message_not_verbatim_or_empty:
  "error (poll_callback (Responded 500 (Some (JObj [(''message'', JStr '''')]))) initial_session) =
     Some ''An API error occurred'' \<and>
   error (poll_callback (Responded 500 (Some (JObj [(''message'', JArr [])]))) initial_session) =
     Some ''''"
  by (simp add: model_defs)

section \<open>Progress per status (C7)\<close>

text \<open>
  C7, as the code has it. A submission sets the progress to 5. A status request answered
  with status completed or failed sets it to 100, one answered with status processing sets
  it to 50, and any other answer, status pending included, leaves the progress as it was.
\<close>

theorem progress_by_status:
  "progress (submit_begin s) = 5 \<and>
   progress (poll_callback out s) =
     (if received_status out = Some (JStr ''completed'') \<or> received_status out = Some (JStr ''failed'')
      then 100
      else if received_status out = Some (JStr ''processing'') then 50
      else progress s)"
  by (simp add: poll_callback_progress terminal_def submit_begin_def resetState_def)

theorem progress_by_status_witness:
  "received_status (status_reply ''pending'') = Some (JStr ''pending'') \<and>
   progress (poll_callback (status_reply ''pending'') (initial_session\<lparr>progress := 50\<rparr>)) = 50 \<and>
   progress (poll_callback (status_reply ''processing'') initial_session) = 50 \<and>
   progress (poll_callback (status_reply ''failed'') initial_session) = 100 \<and>
   progress (submit_begin initial_session) = 5"
proof -
  have r: "received_status (status_reply st) = Some (JStr st)" for st
    by (simp add: received_status_def status_reply_def ok_body_def response_ok_def)
  show ?thesis
    using progress_by_status [of initial_session "status_reply ''processing''"]
      progress_by_status [of "initial_session\<lparr>progress := 50\<rparr>" "status_reply ''pending''"]
      progress_by_status [of initial_session "status_reply ''failed''"]
    by (simp add: r)
qed

text \<open>
  The claim as the spec states it fails: with two status requests in flight, the second is
  answered first with status processing and then the first with status pending; the tick
  that observes pending leaves the progress at 50, not at 5.
\<close>

theorem pending_keeps_progress:
  "run (two_in_flight @ [PollSettles 1 (status_reply ''processing''), PollSettles 0 (status_reply ''pending'')])
       initial_world =
     Some \<lparr>ui = \<lparr>jobId = JStr ''A'', result = JObj [(''status'', JStr ''pending'')],
                 isLoading = True, error = None, progress = 50\<rparr>,
           interval = Some (JStr ''A''), polls = [],
           url_posts = [], uploads = []\<rparr>"
  by (simp add: model_defs example_defs)

section \<open>Missing input on submission (C8)\<close>




section \<open>A failure body without a message (C9)\<close>

text \<open>
  C9. For a response that is not ok and whose body is a JSON object without a \<^verbatim>\<open>message\<close>
  member, \<^verbatim>\<open>apiFetch\<close> throws an \<^verbatim>\<open>ApiError\<close> with the text \<^verbatim>\<open>An API error occurred\<close>, and
  that text is the error shown after a status request and after a URL submission; on the
  file path the text is \<^verbatim>\<open>File upload failed\<close>. The catch blocks show the message of every
  \<^verbatim>\<open>ApiError\<close>, and the text of their own context for the errors that are not an \<^verbatim>\<open>ApiError\<close>.
\<close>

theorem wrapper_default_message:
  assumes "\<not> response_ok st" and "map_of (rev kvs) ''message'' = None"
  shows "apiFetch (Responded st (Some (JObj kvs))) = Inl (ApiError ''An API error occurred'' st (JObj kvs)) \<and>
         error (poll_callback (Responded st (Some (JObj kvs))) s) = Some ''An API error occurred'' \<and>
         error (url_continuation (Responded st (Some (JObj kvs))) s) = Some ''An API error occurred'' \<and>
         error (upload_continuation (Responded st (Some (JObj kvs))) s) = Some ''File upload failed'' \<and>
         (\<forall>m c d. error (poll_catch (ApiError m c d) s) = Some m \<and>
                  error (submit_catch url_fallback (ApiError m c d) s) = Some m \<and>
                  error (submit_catch file_fallback (ApiError m c d) s) = Some m) \<and>
         error (poll_catch TypeError s) = Some ''An unknown error occurred while fetching results.'' \<and>
         error (poll_catch SyntaxError s) = Some ''An unknown error occurred while fetching results.'' \<and>
         error (submit_catch url_fallback TypeError s) = Some ''An unknown error occurred during URL submission.'' \<and>
         error (submit_catch url_fallback SyntaxError s) = Some ''An unknown error occurred during URL submission.'' \<and>
         error (submit_catch file_fallback TypeError s) = Some ''An unknown error occurred during file submission.'' \<and>
         error (submit_catch file_fallback SyntaxError s) = Some ''An unknown error occurred during file submission.''"
proof -
  have f: "apiFetch (Responded st (Some (JObj kvs))) = Inl (ApiError ''An API error occurred'' st (JObj kvs))"
    using assms by (simp add: js_or_def api_error_default_def)
  have u: "upload_fetch (Responded st (Some (JObj kvs))) = Inl (ApiError ''File upload failed'' st (JObj kvs))"
    using assms by (simp add: js_or_def upload_error_default_def)
  have p: "error (poll_callback (Responded st (Some (JObj kvs))) s) = Some ''An API error occurred''"
    using f by (simp add: poll_callback_error_thrown del: apiFetch.simps)
  have q: "error (url_continuation (Responded st (Some (JObj kvs))) s) = Some ''An API error occurred''"
    using f by (simp add: url_continuation_def submit_catch_def del: apiFetch.simps)
  have r: "error (upload_continuation (Responded st (Some (JObj kvs))) s) = Some ''File upload failed''"
    using u by (simp add: upload_continuation_def submit_catch_def del: upload_fetch.simps)
  show ?thesis
    by (simp add: f p q r poll_catch_def submit_catch_def poll_fallback_def url_fallback_def
        file_fallback_def del: apiFetch.simps upload_fetch.simps)
qed

theorem wrapper_default_message_witness:
  "\<not> response_ok 500 \<and> map_of (rev [(''code'', JNum 7)]) ''message'' = None \<and>
   error (poll_callback (Responded 500 (Some (JObj [(''code'', JNum 7)]))) initial_session) =
     Some ''An API error occurred'' \<and>
   error (upload_continuation (Responded 500 (Some (JObj [(''code'', JNum 7)]))) initial_session) =
     Some ''File upload failed'' \<and>
   ''An API error occurred'' \<noteq> ''An unknown error occurred while fetching results.'' \<and>
   ''File upload failed'' \<noteq> ''An unknown error occurred during file submission.''"
proof -
  have a: "\<not> response_ok 500" by (simp add: response_ok_def)
  have b: "map_of (rev [(''code'', JNum 7)]) ''message'' = None" by simp
  from wrapper_default_message [OF a b, of initial_session] a b show ?thesis by simp
qed

section \<open>A body that is not JSON (C10)\<close>

text \<open>
  C10. For a response whose body is not JSON, whatever its status, 2xx included, \<^verbatim>\<open>apiFetch\<close>
  throws the parse error: it neither returns a value nor throws an \<^verbatim>\<open>ApiError\<close>.
\<close>

theorem non_json_body_throws:
  "apiFetch (Responded st None) = Inl SyntaxError \<and>
   (\<forall>m c d. apiFetch (Responded st None) \<noteq> Inl (ApiError m c d)) \<and>
   (\<forall>v. apiFetch (Responded st None) \<noteq> Inr v)"
  by simp

theorem non_json_body_throws_witness:
  "response_ok 200 \<and> apiFetch (Responded 200 None) = Inl SyntaxError"
  using non_json_body_throws [of 200] by (simp add: response_ok_def)

end
